theory Spec2Isabelle
  imports Complex_Main "HOL-Library.AList" "HOL-Library.Multiset"
begin

section \<open>Python and numpy primitives used by the fidelity cell\<close>

text \<open>
  The notebook's benchmarking cell defines \<^verbatim>\<open>fidelity_metric\<close> and
  \<^verbatim>\<open>compute_average_fidelity\<close>. Feature values and model outputs are numpy floats;
  they are modelled as \<^typ>\<open>real\<close>. A Python exception is a value of type \<open>error\<close>:
  \<^verbatim>\<open>list.index\<close> raises ValueError for an absent element, indexing an array
  out of range raises IndexError.
\<close>

datatype error = ValueError | IndexError

type_synonym vector = "real list"

text \<open>A dict is the list of its items in insertion order (what \<^verbatim>\<open>.items()\<close> iterates).\<close>

type_synonym explanation = "(string \<times> real) list"

text \<open>\<^verbatim>\<open>list(names).index(y)\<close>: the first position of \<open>y\<close>; \<open>None\<close> stands for ValueError.\<close>

fun index_of :: "'a list \<Rightarrow> 'a \<Rightarrow> nat option" where
  "index_of [] y = None"
| "index_of (x # xs) y = (if x = y then Some 0 else map_option Suc (index_of xs y))"

text \<open>
  \<^verbatim>\<open>sorted(xs, key=key, reverse=True)\<close>. CPython keeps the sort stable under
  \<^verbatim>\<open>reverse=True\<close> by reversing the list, running the stable ascending sort and
  reversing the result; \<^const>\<open>sort_key\<close> is the stable ascending sort.
\<close>

definition py_sorted_reverse :: "('a \<Rightarrow> 'k::linorder) \<Rightarrow> 'a list \<Rightarrow> 'a list" where
  "py_sorted_reverse key xs = rev (sort_key key (rev xs))"

text \<open>
  The slice \<^verbatim>\<open>xs[:k]\<close>: the first \<open>k\<close> elements, all of them when \<open>k\<close> exceeds the
  length; a negative \<open>k\<close> counts from the end, so the last \<open>-k\<close> elements are dropped.
\<close>

definition py_slice_to :: "int \<Rightarrow> 'a list \<Rightarrow> 'a list" where
  "py_slice_to k xs =
     (if 0 \<le> k then take (nat k) xs else take (nat (int (length xs) + k)) xs)"

text \<open>\<^verbatim>\<open>range(n)\<close>: empty when \<open>n \<le> 0\<close>.\<close>

definition py_range :: "int \<Rightarrow> nat list" where
  "py_range n = [0..<nat n]"

text \<open>
  \<^verbatim>\<open>dict(pairs)\<close>: a repeated key keeps the position of its first insertion and the
  value of its last.
\<close>

definition py_dict :: "('k \<times> 'v) list \<Rightarrow> ('k \<times> 'v) list" where
  "py_dict ps = foldl (\<lambda>d p. AList.update (fst p) (snd p) d) [] ps"

definition np_zeros_like :: "vector \<Rightarrow> vector" where
  "np_zeros_like a = replicate (length a) 0"

text \<open>
  \<^verbatim>\<open>np.mean\<close> of a list of floats. On the empty list numpy returns nan (with a
  RuntimeWarning, not an exception).
\<close>

datatype np_float = Num real | NaN

definition np_mean :: "real list \<Rightarrow> np_float" where
  "np_mean xs = (if xs = [] then NaN else Num (sum_list xs / real (length xs)))"

section \<open>fidelity_metric\<close>

text \<open>
  The parameter \<open>names\<close> is the global \<^verbatim>\<open>data.feature_names\<close>, which the notebook
  never defines. The parameter \<open>model\<close> is the scalar read off the classifier,
  \<^verbatim>\<open>model.predict(x.reshape(1, -1))[0][0]\<close>.
\<close>

definition sorted_features :: "explanation \<Rightarrow> explanation" where
  "sorted_features explanation = py_sorted_reverse (\<lambda>x. \<bar>snd x\<bar>) explanation"

definition features_to_remove :: "explanation \<Rightarrow> int \<Rightarrow> string list" where
  "features_to_remove explanation num_features =
     map fst (py_slice_to num_features (sorted_features explanation))"

text \<open>
  The loop \<^verbatim>\<open>for feature in features_to_remove\<close>, on the value of the copy:
  \<^verbatim>\<open>idx = list(data.feature_names).index(feature)\<close> and then
  \<^verbatim>\<open>instance_perturbed[idx] = baseline[idx]\<close>.
\<close>

fun perturb :: "string list \<Rightarrow> vector \<Rightarrow> string list \<Rightarrow> vector \<Rightarrow> error + vector" where
  "perturb names baseline [] instance_perturbed = Inr instance_perturbed"
| "perturb names baseline (feature # rest) instance_perturbed =
     (case index_of names feature of
        None \<Rightarrow> Inl ValueError
      | Some idx \<Rightarrow>
          if idx < length baseline \<and> idx < length instance_perturbed
          then perturb names baseline rest (instance_perturbed[idx := baseline ! idx])
          else Inl IndexError)"

definition fidelity_metric ::
  "string list \<Rightarrow> (vector \<Rightarrow> real) \<Rightarrow> vector \<Rightarrow> explanation \<Rightarrow> int \<Rightarrow> error + real" where
  "fidelity_metric names model instance explanation num_features =
     (let instance_perturbed = instance;
          baseline = np_zeros_like instance
      in case perturb names baseline (features_to_remove explanation num_features)
                instance_perturbed of
           Inl e \<Rightarrow> Inl e
         | Inr instance_perturbed' \<Rightarrow>
             (let original_pred = model instance;
                  perturbed_pred = model instance_perturbed'
              in Inr (original_pred - perturbed_pred)))"

section \<open>compute_average_fidelity\<close>

text \<open>
  The parameter \<open>explainer\<close> is \<^verbatim>\<open>explainer.explain_instance(instance, model_predict,
  num_features=n).as_list()\<close> as a function of the instance and of \<open>n\<close>.
\<close>

type_synonym explainer = "vector \<Rightarrow> nat \<Rightarrow> (string \<times> real) list"

definition exp_dict :: "explainer \<Rightarrow> vector \<Rightarrow> explanation" where
  "exp_dict explainer instance = py_dict (explainer instance 5)"

text \<open>
  The loop \<^verbatim>\<open>for i in range(num_samples)\<close> with the accumulator \<open>fidelities\<close>;
  \<^verbatim>\<open>X[i]\<close> raises IndexError past the last row.
\<close>

fun fidelity_loop ::
  "string list \<Rightarrow> (vector \<Rightarrow> real) \<Rightarrow> vector list \<Rightarrow> explainer \<Rightarrow> int \<Rightarrow>
   nat list \<Rightarrow> real list \<Rightarrow> error + real list" where
  "fidelity_loop names model X explainer num_features [] fidelities = Inr fidelities"
| "fidelity_loop names model X explainer num_features (i # rest) fidelities =
     (if i < length X
      then (let instance = X ! i
            in case fidelity_metric names model instance (exp_dict explainer instance)
                      num_features of
                 Inl e \<Rightarrow> Inl e
               | Inr fidelity \<Rightarrow>
                   fidelity_loop names model X explainer num_features rest
                     (fidelities @ [fidelity]))
      else Inl IndexError)"

definition compute_average_fidelity ::
  "string list \<Rightarrow> (vector \<Rightarrow> real) \<Rightarrow> vector list \<Rightarrow> explainer \<Rightarrow> int \<Rightarrow> int \<Rightarrow>
   error + np_float" where
  "compute_average_fidelity names model X explainer num_samples num_features =
     (case fidelity_loop names model X explainer num_features (py_range num_samples) [] of
        Inl e \<Rightarrow> Inl e
      | Inr fidelities \<Rightarrow> Inr (np_mean fidelities))"

section \<open>The perturbation on a store of arrays\<close>

text \<open>
  To speak about the copy and the caller's array as two objects, numpy arrays live in a
  store, a list of arrays addressed by position. \<^verbatim>\<open>instance.copy()\<close> and
  \<^verbatim>\<open>np.zeros_like(instance)\<close> allocate a new array at the end of the store; the
  loop writes through the reference of the copy.
\<close>

type_synonym ref = nat
type_synonym store = "vector list"

definition store_copy :: "ref \<Rightarrow> store \<Rightarrow> ref \<times> store" where
  "store_copy a h = (length h, h @ [h ! a])"

definition store_zeros_like :: "ref \<Rightarrow> store \<Rightarrow> ref \<times> store" where
  "store_zeros_like a h = (length h, h @ [np_zeros_like (h ! a)])"

fun perturb_store :: "string list \<Rightarrow> ref \<Rightarrow> ref \<Rightarrow> string list \<Rightarrow> store \<Rightarrow> error option \<times> store" where
  "perturb_store names p b [] h = (None, h)"
| "perturb_store names p b (feature # rest) h =
     (case index_of names feature of
        None \<Rightarrow> (Some ValueError, h)
      | Some idx \<Rightarrow>
          if idx < length (h ! b) \<and> idx < length (h ! p)
          then perturb_store names p b rest (h[p := (h ! p)[idx := h ! b ! idx]])
          else (Some IndexError, h))"

definition fidelity_metric_store ::
  "string list \<Rightarrow> (vector \<Rightarrow> real) \<Rightarrow> ref \<Rightarrow> explanation \<Rightarrow> int \<Rightarrow> store \<Rightarrow>
   (error + real) \<times> store" where
  "fidelity_metric_store names model instance explanation num_features h =
     (let (instance_perturbed, h1) = store_copy instance h;
          (baseline, h2) = store_zeros_like instance h1;
          (err, h3) = perturb_store names instance_perturbed baseline
                        (features_to_remove explanation num_features) h2
      in case err of
           Some e \<Rightarrow> (Inl e, h3)
         | None \<Rightarrow>
             (let original_pred = model (h3 ! instance);
                  perturbed_pred = model (h3 ! instance_perturbed)
              in (Inr (original_pred - perturbed_pred), h3)))"

text \<open>The positions the loop writes: those of the selected identifiers that resolve.\<close>

definition selected_positions :: "string list \<Rightarrow> explanation \<Rightarrow> int \<Rightarrow> nat list" where
  "selected_positions names explanation num_features =
     List.map_filter (index_of names) (features_to_remove explanation num_features)"

section \<open>The score as the specification words it\<close>

text \<open>
  The vector that is zero at the positions \<open>ps\<close> and agrees with \<open>x\<close> elsewhere.
\<close>

definition zero_at :: "nat list \<Rightarrow> vector \<Rightarrow> vector" where
  "zero_at ps x = map (\<lambda>i. if i \<in> set ps then 0 else x ! i) [0..<length x]"

text \<open>
  The specification's procedure: sort the importance entries by descending absolute
  value (stable), take the first \<open>k\<close> identifiers, set the position of each in the
  feature ordering to zero, and return the model's output on the instance minus its
  output on the perturbed vector.
\<close>

definition spec_selected :: "explanation \<Rightarrow> nat \<Rightarrow> string list" where
  "spec_selected importance k = take k (map fst (sort_key (\<lambda>e. - \<bar>snd e\<bar>) importance))"

definition score_spec ::
  "string list \<Rightarrow> (vector \<Rightarrow> real) \<Rightarrow> vector \<Rightarrow> explanation \<Rightarrow> nat \<Rightarrow> real" where
  "score_spec names model x importance k =
     model x - model (zero_at (List.map_filter (index_of names) (spec_selected importance k)) x)"

text \<open>The linear model \<open>f(x) = w \<cdot> x\<close> of the specification's sanity scenario.\<close>

definition linear_model :: "vector \<Rightarrow> vector \<Rightarrow> real" where
  "linear_model w x = sum_list (map2 (*) w x)"

section \<open>Basic facts\<close>

lemma index_of_None_iff: "index_of xs y = None \<longleftrightarrow> y \<notin> set xs"
  by (induction xs) auto

lemma index_of_Some_less: "index_of xs y = Some i \<Longrightarrow> i < length xs"
  by (induction xs arbitrary: i) (auto split: if_splits)

lemma index_of_Some_nth: "index_of xs y = Some i \<Longrightarrow> xs ! i = y"
  by (induction xs arbitrary: i) (auto split: if_splits)

lemma features_to_remove_zero: "features_to_remove explanation 0 = []"
  by (simp add: features_to_remove_def py_slice_to_def)

subsection \<open>The descending stable sort\<close>

lemma py_sorted_reverse_mset: "mset (py_sorted_reverse key xs) = mset xs"
  by (simp add: py_sorted_reverse_def)

lemma py_sorted_reverse_stable:
  "filter (\<lambda>y. key y = v) (py_sorted_reverse key xs) = filter (\<lambda>y. key y = v) xs"
  by (simp add: py_sorted_reverse_def rev_filter [symmetric] sort_key_stable)

lemma py_sorted_reverse_descending: "sorted (rev (map key (py_sorted_reverse key xs)))"
  by (simp add: py_sorted_reverse_def rev_map)

lemma py_sorted_reverse_eq_sort_key:
  fixes key :: "'a \<Rightarrow> real"
  shows "py_sorted_reverse key xs = sort_key (\<lambda>x. - key x) xs"
proof (rule properties_for_sort_key [symmetric])
  show "mset (py_sorted_reverse key xs) = mset xs"
    by (rule py_sorted_reverse_mset)
next
  fix k
  have "(\<lambda>x. - key k = - key x) = (\<lambda>x. key x = key k)" by auto
  then show "filter (\<lambda>x. - key k = - key x) (py_sorted_reverse key xs)
           = filter (\<lambda>x. - key k = - key x) xs"
    by (simp add: py_sorted_reverse_stable)
next
  have "sorted (map (\<lambda>x. - key x) (rev (sort_key key (rev xs))))
        = sorted (map key (sort_key key (rev xs)))"
    by (simp add: sorted_map sorted_wrt_rev)
  then show "sorted (map (\<lambda>x. - key x) (py_sorted_reverse key xs))"
    by (simp add: py_sorted_reverse_def)
qed

subsection \<open>The loop over the selected identifiers\<close>

lemma length_zero_at [simp]: "length (zero_at ps x) = length x"
  by (simp add: zero_at_def)

lemma nth_zero_at: "i < length x \<Longrightarrow> zero_at ps x ! i = (if i \<in> set ps then 0 else x ! i)"
  by (simp add: zero_at_def)

lemma zero_at_Nil [simp]: "zero_at [] x = x"
  by (rule nth_equalityI) (simp_all add: nth_zero_at)

lemma zero_at_Cons: "i < length x \<Longrightarrow> zero_at ps (x[i := 0]) = zero_at (i # ps) x"
  by (rule nth_equalityI) (auto simp: nth_zero_at nth_list_update)

lemma map_filter_Cons_Some: "f a = Some b \<Longrightarrow> List.map_filter f (a # as) = b # List.map_filter f as"
  by (simp add: List.map_filter_simps)

lemma perturb_Inr_zero_at:
  "perturb names (replicate n 0) fs x = Inr y \<Longrightarrow> length x = n \<Longrightarrow>
   y = zero_at (List.map_filter (index_of names) fs) x"
proof (induction fs arbitrary: x)
  case Nil
  then show ?case by (simp add: List.map_filter_simps)
next
  case (Cons f fs)
  from Cons.prems obtain idx where idx: "index_of names f = Some idx" "idx < n"
    and rest: "perturb names (replicate n 0) fs (x[idx := 0]) = Inr y"
    by (auto split: option.splits if_splits)
  from Cons.IH [OF rest] Cons.prems(2) have "y = zero_at (List.map_filter (index_of names) fs) (x[idx := 0])"
    by simp
  with idx Cons.prems(2) show ?case
    by (simp add: zero_at_Cons map_filter_Cons_Some)
qed

lemma perturb_resolvable:
  "list_all (\<lambda>f. case index_of names f of None \<Rightarrow> False | Some i \<Rightarrow> i < n) fs \<Longrightarrow> length x = n \<Longrightarrow>
   perturb names (replicate n 0) fs x = Inr (zero_at (List.map_filter (index_of names) fs) x)"
proof (induction fs arbitrary: x)
  case Nil
  then show ?case by (simp add: List.map_filter_simps)
next
  case (Cons f fs)
  from Cons.prems obtain idx where idx: "index_of names f = Some idx" "idx < n"
    and rest: "list_all (\<lambda>f. case index_of names f of None \<Rightarrow> False | Some i \<Rightarrow> i < n) fs"
    by (auto split: option.splits)
  from Cons.IH [OF rest, of "x[idx := 0]"] Cons.prems(2) idx show ?case
    by (simp add: zero_at_Cons map_filter_Cons_Some)
qed

lemma perturb_unknown_fails:
  "f \<in> set fs \<Longrightarrow> f \<notin> set names \<Longrightarrow> \<exists>e. perturb names b fs x = Inl e"
proof (induction fs arbitrary: x)
  case Nil
  then show ?case by simp
next
  case (Cons g fs)
  show ?case
  proof (cases "g = f")
    case True
    with Cons.prems have "index_of names g = None" by (simp add: index_of_None_iff)
    then show ?thesis by simp
  next
    case False
    with Cons.prems have "f \<in> set fs" by simp
    from Cons.IH [OF this Cons.prems(2)] show ?thesis
      by (auto split: option.splits)
  qed
qed

lemma perturb_unknown_ValueError:
  "f \<in> set fs \<Longrightarrow> f \<notin> set names \<Longrightarrow> length names \<le> length b \<Longrightarrow> length names \<le> length x \<Longrightarrow>
   perturb names b fs x = Inl ValueError"
proof (induction fs arbitrary: x)
  case Nil
  then show ?case by simp
next
  case (Cons g fs)
  show ?case
  proof (cases "index_of names g")
    case None
    then show ?thesis by simp
  next
    case (Some idx)
    then have "g \<in> set names" using index_of_None_iff [of names g] by auto
    with Cons.prems have mem: "f \<in> set fs" by auto
    from Some have "idx < length names" by (rule index_of_Some_less)
    with Cons.prems have "idx < length b" "idx < length x" by simp_all
    with Some Cons.IH [OF mem Cons.prems(2) Cons.prems(3), of "x[idx := b ! idx]"] Cons.prems(4)
    show ?thesis by simp
  qed
qed

subsection \<open>The selection and the result of fidelity_metric\<close>

lemma sorted_features_eq_sort_key:
  "sorted_features explanation = sort_key (\<lambda>e. - \<bar>snd e\<bar>) explanation"
  by (simp add: sorted_features_def py_sorted_reverse_eq_sort_key)

lemma features_to_remove_nonneg:
  "0 \<le> k \<Longrightarrow> features_to_remove explanation k = take (nat k) (map fst (sorted_features explanation))"
  by (simp add: features_to_remove_def py_slice_to_def take_map)

lemma features_to_remove_subset:
  "set (features_to_remove explanation k) \<subseteq> fst ` set explanation"
proof -
  have "set (py_slice_to k (sorted_features explanation)) \<subseteq> set (sorted_features explanation)"
    by (auto simp: py_slice_to_def dest: in_set_takeD)
  also have "\<dots> = set explanation"
    by (simp add: sorted_features_def py_sorted_reverse_def)
  finally show ?thesis
    by (auto simp: features_to_remove_def)
qed

lemma resolvable_all:
  "set fs \<subseteq> set names \<Longrightarrow> length names \<le> n \<Longrightarrow>
   list_all (\<lambda>f. case index_of names f of None \<Rightarrow> False | Some i \<Rightarrow> i < n) fs"
proof -
  assume a: "set fs \<subseteq> set names" "length names \<le> n"
  have "(case index_of names f of None \<Rightarrow> False | Some i \<Rightarrow> i < n)" if "f \<in> set fs" for f
  proof (cases "index_of names f")
    case None
    with that a show ?thesis by (auto simp: index_of_None_iff)
  next
    case (Some i)
    with index_of_Some_less [OF Some] a show ?thesis by simp
  qed
  then show ?thesis by (simp add: list_all_iff)
qed

lemma fidelity_metric_Inr:
  "fidelity_metric names model x explanation k = Inr r \<Longrightarrow>
   r = model x - model (zero_at (selected_positions names explanation k) x)"
  by (auto simp: fidelity_metric_def np_zeros_like_def selected_positions_def Let_def
           split: sum.splits dest!: perturb_Inr_zero_at)

lemma fidelity_metric_resolvable:
  assumes "set (features_to_remove explanation k) \<subseteq> set names" "length names \<le> length x"
  shows "fidelity_metric names model x explanation k
         = Inr (model x - model (zero_at (selected_positions names explanation k) x))"
  using perturb_resolvable [OF resolvable_all [OF assms], of x]
  by (simp add: fidelity_metric_def np_zeros_like_def selected_positions_def)

lemma fidelity_metric_unknown_fails:
  "f \<in> set (features_to_remove explanation k) \<Longrightarrow> f \<notin> set names \<Longrightarrow>
   \<exists>e. fidelity_metric names model x explanation k = Inl e"
  using perturb_unknown_fails [of f "features_to_remove explanation k" names "np_zeros_like x" x]
  by (auto simp: fidelity_metric_def)

lemma fidelity_metric_unknown_ValueError:
  "f \<in> set (features_to_remove explanation k) \<Longrightarrow> f \<notin> set names \<Longrightarrow>
   length names \<le> length x \<Longrightarrow>
   fidelity_metric names model x explanation k = Inl ValueError"
  using perturb_unknown_ValueError [of f "features_to_remove explanation k" names "np_zeros_like x" x]
  by (simp add: fidelity_metric_def np_zeros_like_def)

lemma length_sorted_features [simp]: "length (sorted_features explanation) = length explanation"
  by (simp add: sorted_features_def py_sorted_reverse_def)

lemma features_to_remove_negative:
  "k < 0 \<Longrightarrow> features_to_remove explanation k
     = take (length explanation - nat (- k)) (map fst (sorted_features explanation))"
proof -
  assume "k < 0"
  then have "nat (int (length explanation) + k) = length explanation - nat (- k)" by arith
  with \<open>k < 0\<close> show ?thesis
    by (simp add: features_to_remove_def py_slice_to_def take_map)
qed

lemma features_to_remove_large:
  "int (length explanation) \<le> k \<Longrightarrow> features_to_remove explanation k
     = map fst (sorted_features explanation)"
  by (simp add: features_to_remove_def py_slice_to_def)

subsection \<open>The loop over the samples\<close>

lemma fidelity_loop_append:
  "fidelity_loop names model X explainer k (is @ js) acc
   = (case fidelity_loop names model X explainer k is acc of
        Inl e \<Rightarrow> Inl e
      | Inr acc' \<Rightarrow> fidelity_loop names model X explainer k js acc')"
  by (induction "is" arbitrary: acc) (auto simp: Let_def split: sum.splits)

lemma fidelity_loop_all_ok:
  "(\<And>i. i \<in> set is \<Longrightarrow> i < length X \<and>
        fidelity_metric names model (X ! i) (exp_dict explainer (X ! i)) k = Inr (s i)) \<Longrightarrow>
   fidelity_loop names model X explainer k is acc = Inr (acc @ map s is)"
  by (induction "is" arbitrary: acc) (simp_all add: Let_def)

lemma py_range_beyond:
  "int (length X) < n \<Longrightarrow> py_range n = [0..<length X] @ length X # [Suc (length X)..<nat n]"
proof -
  assume "int (length X) < n"
  then have "length X < nat n" by arith
  then have "[0..<nat n] = [0..<length X] @ [length X..<nat n]"
    by (metis le_add_diff_inverse less_imp_le_nat upt_add_eq_append zero_le)
  also from \<open>length X < nat n\<close> have "[length X..<nat n] = length X # [Suc (length X)..<nat n]"
    by (rule upt_conv_Cons)
  finally show ?thesis by (simp add: py_range_def)
qed

lemma fidelity_loop_beyond:
  "int (length X) < n \<Longrightarrow>
   \<exists>e. fidelity_loop names model X explainer k (py_range n) acc = Inl e"
  by (simp add: py_range_beyond fidelity_loop_append split: sum.splits)

lemma fidelity_loop_beyond_IndexError:
  assumes "int (length X) < n"
    and "\<And>i. i < length X \<Longrightarrow>
           fidelity_metric names model (X ! i) (exp_dict explainer (X ! i)) k = Inr (s i)"
  shows "fidelity_loop names model X explainer k (py_range n) acc = Inl IndexError"
proof -
  have "fidelity_loop names model X explainer k [0..<length X] acc
        = Inr (acc @ map s [0..<length X])"
    by (rule fidelity_loop_all_ok) (simp add: assms(2))
  with assms(1) show ?thesis
    by (simp add: py_range_beyond fidelity_loop_append)
qed

subsection \<open>Sizes of the explanation and of the selection\<close>

lemma length_update_le: "length (AList.update k v al) \<le> Suc (length al)"
  by (induction al) auto

lemma length_foldl_update:
  "length (foldl (\<lambda>d p. AList.update (fst p) (snd p) d) d ps) \<le> length d + length ps"
proof (induction ps arbitrary: d)
  case Nil
  then show ?case by simp
next
  case (Cons p ps)
  have "length (foldl (\<lambda>d p. AList.update (fst p) (snd p) d) (AList.update (fst p) (snd p) d) ps)
        \<le> length (AList.update (fst p) (snd p) d) + length ps"
    by (rule Cons.IH)
  also have "\<dots> \<le> Suc (length d) + length ps"
    using length_update_le [of "fst p" "snd p" d] by simp
  finally show ?case by simp
qed

lemma length_py_dict: "length (py_dict ps) \<le> length ps"
  using length_foldl_update [of "[]" ps] by (simp add: py_dict_def)

lemma length_features_to_remove: "length (features_to_remove explanation k) \<le> length explanation"
  by (simp add: features_to_remove_def py_slice_to_def) arith

lemma length_features_to_remove_nonneg:
  "0 \<le> k \<Longrightarrow> length (features_to_remove explanation k) \<le> nat k"
  by (simp add: features_to_remove_def py_slice_to_def)

lemma length_map_filter_le: "length (List.map_filter f xs) \<le> length xs"
  by (induction xs) (auto split: option.splits)

lemma length_selected_positions:
  "length (selected_positions names explanation k) \<le> length (features_to_remove explanation k)"
  by (simp add: selected_positions_def length_map_filter_le)

lemma fidelity_loop_explainer_5:
  "fidelity_loop names model X explainer k is acc
   = fidelity_loop names model X (\<lambda>x m. explainer x 5) k is acc"
  by (induction "is" arbitrary: acc) (auto simp: exp_dict_def Let_def split: sum.splits)

subsection \<open>The store\<close>

lemma perturb_store_frame:
  "perturb_store names p b fs h = (err, h') \<Longrightarrow> p < length h \<Longrightarrow>
   length h' = length h
   \<and> (\<forall>r. r \<noteq> p \<longrightarrow> h' ! r = h ! r)
   \<and> length (h' ! p) = length (h ! p)
   \<and> (\<forall>i. i \<notin> set (List.map_filter (index_of names) fs) \<longrightarrow> h' ! p ! i = h ! p ! i)"
proof (induction fs arbitrary: h)
  case Nil
  then show ?case by simp
next
  case (Cons f fs)
  show ?case
  proof (cases "index_of names f")
    case None
    with Cons.prems show ?thesis by simp
  next
    case (Some idx)
    show ?thesis
    proof (cases "idx < length (h ! b) \<and> idx < length (h ! p)")
      case False
      with Some Cons.prems show ?thesis by auto
    next
      case True
      let ?h = "h[p := (h ! p)[idx := h ! b ! idx]]"
      from True Some Cons.prems have run: "perturb_store names p b fs ?h = (err, h')"
        by simp
      from Cons.prems have p: "p < length ?h" by simp
      from Cons.IH [OF run p] Cons.prems(2) Some show ?thesis
        by (auto simp: nth_list_update)
    qed
  qed
qed

lemma perturb_store_value:
  "perturb_store names p b fs h = (err, h') \<Longrightarrow> p < length h \<Longrightarrow> p \<noteq> b \<Longrightarrow>
   (case perturb names (h ! b) fs (h ! p) of
      Inl e \<Rightarrow> err = Some e
    | Inr y \<Rightarrow> err = None \<and> h' ! p = y)"
proof (induction fs arbitrary: h)
  case Nil
  then show ?case by simp
next
  case (Cons f fs)
  show ?case
  proof (cases "index_of names f")
    case None
    with Cons.prems show ?thesis by simp
  next
    case (Some idx)
    show ?thesis
    proof (cases "idx < length (h ! b) \<and> idx < length (h ! p)")
      case False
      with Some Cons.prems show ?thesis by auto
    next
      case True
      let ?h = "h[p := (h ! p)[idx := h ! b ! idx]]"
      from True Some Cons.prems have run: "perturb_store names p b fs ?h = (err, h')"
        by simp
      from Cons.prems have p: "p < length ?h" by simp
      from Cons.prems have same: "?h ! b = h ! b" "?h ! p = (h ! p)[idx := h ! b ! idx]"
        by simp_all
      from Cons.IH [OF run p Cons.prems(3)] True Some same show ?thesis
        by simp
    qed
  qed
qed

lemma fidelity_metric_store_unfold:
  "fidelity_metric_store names model a explanation k h = (res, h') \<Longrightarrow> a < length h \<Longrightarrow>
   \<exists>err. perturb_store names (length h) (Suc (length h)) (features_to_remove explanation k)
           (h @ [h ! a, np_zeros_like (h ! a)]) = (err, h')
       \<and> res = (case err of Some e \<Rightarrow> Inl e
                 | None \<Rightarrow> Inr (model (h' ! a) - model (h' ! length h)))"
  by (auto simp: fidelity_metric_store_def store_copy_def store_zeros_like_def nth_append
                 Let_def split: prod.splits option.splits)

lemma fidelity_metric_store_frame:
  assumes "a < length h" "fidelity_metric_store names model a explanation k h = (res, h')"
  shows "length h' = length h + 2"
    and "\<And>r. r < length h \<Longrightarrow> h' ! r = h ! r"
    and "length (h' ! length h) = length (h ! a)"
    and "\<And>i. i \<notin> set (selected_positions names explanation k) \<Longrightarrow>
           h' ! length h ! i = h ! a ! i"
proof -
  let ?h2 = "h @ [h ! a, np_zeros_like (h ! a)]"
  from fidelity_metric_store_unfold [OF assms(2) assms(1)] obtain err where
    run: "perturb_store names (length h) (Suc (length h)) (features_to_remove explanation k) ?h2
          = (err, h')"
    by blast
  have p: "length h < length ?h2" by simp
  note fr = perturb_store_frame [OF run p]
  from fr show "length h' = length h + 2" by simp
  from fr show "h' ! r = h ! r" if "r < length h" for r
    using that by (simp add: nth_append)
  from fr show "length (h' ! length h) = length (h ! a)" by simp
  from fr show "h' ! length h ! i = h ! a ! i"
    if "i \<notin> set (selected_positions names explanation k)" for i
    using that by (simp add: selected_positions_def)
qed

lemma fidelity_metric_store_result:
  assumes "a < length h"
  shows "fst (fidelity_metric_store names model a explanation k h)
         = fidelity_metric names model (h ! a) explanation k"
proof -
  let ?h2 = "h @ [h ! a, np_zeros_like (h ! a)]"
  obtain res h' where eq: "fidelity_metric_store names model a explanation k h = (res, h')"
    by (cases "fidelity_metric_store names model a explanation k h")
  from fidelity_metric_store_unfold [OF eq assms] obtain err where
    run: "perturb_store names (length h) (Suc (length h)) (features_to_remove explanation k) ?h2
          = (err, h')"
    and res: "res = (case err of Some e \<Rightarrow> Inl e
                 | None \<Rightarrow> Inr (model (h' ! a) - model (h' ! length h)))"
    by blast
  have p: "length h < length ?h2" by simp
  have ne: "length h \<noteq> Suc (length h)" by simp
  have cells: "?h2 ! Suc (length h) = np_zeros_like (h ! a)" "?h2 ! length h = h ! a"
    by (simp_all add: nth_append)
  from fidelity_metric_store_frame(2) [OF assms eq assms] have orig: "h' ! a = h ! a" .
  from perturb_store_value [OF run p ne] cells res orig
  have "res = fidelity_metric names model (h ! a) explanation k"
    by (auto simp: fidelity_metric_def split: sum.splits)
  with eq show ?thesis by simp
qed

subsection \<open>Selecting every feature\<close>

lemma index_of_nth_distinct:
  "distinct xs \<Longrightarrow> i < length xs \<Longrightarrow> index_of xs (xs ! i) = Some i"
proof (induction xs arbitrary: i)
  case Nil
  then show ?case by simp
next
  case (Cons x xs)
  show ?case
  proof (cases i)
    case 0
    then show ?thesis by simp
  next
    case (Suc j)
    with Cons.prems have "xs ! j \<in> set xs" "x \<notin> set xs" by simp_all
    then have "x \<noteq> xs ! j" by blast
    with Suc Cons.IH [of j] Cons.prems show ?thesis by simp
  qed
qed

lemma map_filter_member:
  "a \<in> set xs \<Longrightarrow> f a = Some b \<Longrightarrow> b \<in> set (List.map_filter f xs)"
  by (induction xs) (auto split: option.splits)

lemma positions_cover:
  assumes "distinct names" "set names \<subseteq> set fs" "i < length names"
  shows "i \<in> set (List.map_filter (index_of names) fs)"
proof -
  from assms have "names ! i \<in> set fs" by auto
  moreover from assms have "index_of names (names ! i) = Some i"
    by (simp add: index_of_nth_distinct)
  ultimately show ?thesis
    by (rule map_filter_member)
qed

lemma zero_at_all:
  "(\<And>i. i < length x \<Longrightarrow> i \<in> set ps) \<Longrightarrow> zero_at ps x = replicate (length x) 0"
  by (rule nth_equalityI) (simp_all add: nth_zero_at)

lemma linear_model_zeros: "linear_model w (replicate n 0) = 0"
proof (induction w arbitrary: n)
  case Nil
  then show ?case by (simp add: linear_model_def)
next
  case (Cons a w)
  then show ?case by (cases n) (simp_all add: linear_model_def)
qed

subsection \<open>The order of the selection\<close>

lemma filter_keeps_order:
  assumes "i < j" "j < length L" "P (L ! i)" "P (L ! j)"
  shows "\<exists>a b. a < b \<and> b < length (filter P L) \<and> filter P L ! a = L ! i \<and> filter P L ! b = L ! j"
proof -
  let ?xs = "take i L" and ?R = "drop (Suc i) L"
  let ?n = "j - Suc i"
  from assms have i: "i < length L" by simp
  from assms have n: "?n < length ?R" by simp
  from assms have Rn: "?R ! ?n = L ! j" by simp
  have L: "L = ?xs @ L ! i # ?R" using i by (rule id_take_nth_drop)
  have R: "?R = take ?n ?R @ L ! j # drop (Suc ?n) ?R"
    using id_take_nth_drop [OF n] Rn by simp
  let ?ys = "take ?n ?R" and ?zs = "drop (Suc ?n) ?R"
  have "L = ?xs @ L ! i # ?ys @ L ! j # ?zs"
    using L R by metis
  then have F: "filter P L = filter P ?xs @ L ! i # filter P ?ys @ L ! j # filter P ?zs"
    using assms(3,4) by (metis filter.simps(2) filter_append)
  let ?a = "length (filter P ?xs)"
  let ?b = "Suc (?a + length (filter P ?ys))"
  have "?a < ?b" by simp
  moreover have "?b < length (filter P L)" by (subst F) simp
  moreover have "filter P L ! ?a = L ! i" by (subst F) (simp add: nth_append)
  moreover have "filter P L ! ?b = L ! j"
  proof -
    have "(filter P ?xs @ L ! i # filter P ?ys @ L ! j # filter P ?zs) ! ?b
          = ((filter P ?xs @ L ! i # filter P ?ys) @ L ! j # filter P ?zs)
              ! length (filter P ?xs @ L ! i # filter P ?ys)"
      by simp
    also have "\<dots> = L ! j" by (rule nth_append_length)
    finally show ?thesis using F by simp
  qed
  ultimately show ?thesis by blast
qed

lemma filter_reflects_order:
  assumes "distinct L" "a < b" "b < length (filter P L)"
    and "filter P L ! a = L ! p" "filter P L ! b = L ! q" "p < length L" "q < length L"
  shows "p < q"
proof (rule ccontr)
  assume "\<not> p < q"
  from assms(1) have dF: "distinct (filter P L)" by simp
  from assms(2,3) have a: "a < length (filter P L)" by simp
  have "p \<noteq> q"
  proof
    assume "p = q"
    with assms(4,5) have "filter P L ! a = filter P L ! b" by simp
    with nth_eq_iff_index_eq [OF dF a assms(3)] have "a = b" by simp
    with assms(2) show False by simp
  qed
  with \<open>\<not> p < q\<close> have qp: "q < p" by simp
  from a assms(4) have Pp: "P (L ! p)" by (metis nth_mem mem_Collect_eq set_filter)
  from assms(3,5) have Pq: "P (L ! q)" by (metis nth_mem mem_Collect_eq set_filter)
  from filter_keeps_order [OF qp assms(6) Pq Pp] obtain a' b' where
    ab: "a' < b'" "b' < length (filter P L)" "filter P L ! a' = L ! q" "filter P L ! b' = L ! p"
    by blast
  from ab(1,2) have a': "a' < length (filter P L)" by simp
  from ab(3) assms(5) have "filter P L ! a' = filter P L ! b" by simp
  with nth_eq_iff_index_eq [OF dF a' assms(3)] have "a' = b" by simp
  moreover from ab(4) assms(4) have "filter P L ! b' = filter P L ! a" by simp
  with nth_eq_iff_index_eq [OF dF ab(2) a] have "b' = a" by simp
  ultimately show False using ab(1) assms(2) by simp
qed

lemma sorted_features_priority:
  assumes d: "distinct (map fst explanation)"
    and i: "i < length explanation" and j: "j < length explanation"
    and before: "\<bar>snd (explanation ! j)\<bar> < \<bar>snd (explanation ! i)\<bar>
                 \<or> (\<bar>snd (explanation ! i)\<bar> = \<bar>snd (explanation ! j)\<bar> \<and> i < j)"
    and p: "p < length explanation" "sorted_features explanation ! p = explanation ! i"
    and q: "q < length explanation" "sorted_features explanation ! q = explanation ! j"
  shows "p < q"
proof -
  let ?S = "sorted_features explanation"
  let ?g = "\<lambda>e::string \<times> real. \<bar>snd e\<bar>"
  from d have dE: "distinct explanation" by (simp add: distinct_map)
  have mset: "mset ?S = mset explanation"
    by (simp add: sorted_features_def py_sorted_reverse_mset)
  with dE have dS: "distinct ?S" by (metis mset_eq_imp_distinct_iff)
  have lenS: "length ?S = length explanation" by simp
  from before show ?thesis
  proof
    assume lt: "?g (explanation ! j) < ?g (explanation ! i)"
    show ?thesis
    proof (rule ccontr)
      assume "\<not> p < q"
      then have "q \<le> p" by simp
      have "sorted (rev (map ?g ?S))"
        by (simp add: sorted_features_def py_sorted_reverse_descending)
      from sorted_rev_nth_mono [OF this \<open>q \<le> p\<close>] p(1)
      have "map ?g ?S ! p \<le> map ?g ?S ! q" by simp
      with p q lenS have "?g (explanation ! i) \<le> ?g (explanation ! j)" by simp
      with lt show False by simp
    qed
  next
    assume tie: "?g (explanation ! i) = ?g (explanation ! j) \<and> i < j"
    let ?P = "\<lambda>e. ?g e = ?g (explanation ! i)"
    from tie have ij: "i < j" and Pj: "?P (explanation ! j)" by simp_all
    have Pi: "?P (explanation ! i)" by simp
    from filter_keeps_order [OF ij j, of ?P, OF Pi Pj] obtain a b where
      ab: "a < b" "b < length (filter ?P explanation)"
          "filter ?P explanation ! a = explanation ! i"
          "filter ?P explanation ! b = explanation ! j"
      by blast
    have stable: "filter ?P ?S = filter ?P explanation"
      unfolding sorted_features_def by (rule py_sorted_reverse_stable)
    from ab p q lenS show ?thesis
      by (intro filter_reflects_order [OF dS, of a b ?P p q]) (simp_all add: stable)
  qed
qed

lemma selection_closed:
  assumes d: "distinct (map fst explanation)"
    and i: "i < length explanation" and j: "j < length explanation"
    and sel: "fst (explanation ! j) \<in> set (features_to_remove explanation k)"
    and before: "\<bar>snd (explanation ! j)\<bar> < \<bar>snd (explanation ! i)\<bar>
                 \<or> (\<bar>snd (explanation ! i)\<bar> = \<bar>snd (explanation ! j)\<bar> \<and> i < j)"
  shows "fst (explanation ! i) \<in> set (features_to_remove explanation k)"
proof -
  let ?S = "sorted_features explanation"
  obtain m where m: "py_slice_to k ?S = take m ?S"
    by (cases "0 \<le> k") (simp_all add: py_slice_to_def)
  have setS: "set ?S = set explanation"
    by (simp add: sorted_features_def py_sorted_reverse_def)
  have lenS: "length ?S = length explanation" by simp
  from d have inj: "inj_on fst (set explanation)" by (simp add: distinct_map)
  from sel m obtain e where e: "e \<in> set (take m ?S)" "fst e = fst (explanation ! j)"
    by (auto simp: features_to_remove_def)
  from e(1) have "e \<in> set explanation" using setS by (auto dest: in_set_takeD)
  with inj e(2) j have ej: "e = explanation ! j" by (auto dest: inj_onD)
  from e(1) obtain q where q: "q < length (take m ?S)" "take m ?S ! q = e"
    by (auto simp: in_set_conv_nth)
  then have q': "q < m" "q < length explanation" "?S ! q = explanation ! j"
    using ej lenS by simp_all
  from i setS have "explanation ! i \<in> set ?S" by simp
  then obtain p where p: "p < length explanation" "?S ! p = explanation ! i"
    using lenS by (auto simp: in_set_conv_nth)
  from sorted_features_priority [OF d i j before p q'(2,3)] have "p < q" .
  with q'(1) p lenS have "p < length (take m ?S)" "take m ?S ! p = explanation ! i" by simp_all
  then have "explanation ! i \<in> set (take m ?S)" by (metis nth_mem)
  with m show ?thesis by (force simp: features_to_remove_def)
qed

lemma length_features_to_remove_exact:
  "0 \<le> k \<Longrightarrow> length (features_to_remove explanation k) = min (nat k) (length explanation)"
  by (simp add: features_to_remove_def py_slice_to_def)

lemma features_to_remove_spec_sort:
  "features_to_remove explanation k
   = map fst (py_slice_to k (sort_key (\<lambda>e. - \<bar>snd e\<bar>) explanation))"
  by (simp add: features_to_remove_def sorted_features_eq_sort_key)

subsection \<open>The positions changed per sample\<close>

lemma changed_positions_le:
  "card {j. j < length x \<and> zero_at ps x ! j \<noteq> x ! j} \<le> length ps"
proof -
  have "{j. j < length x \<and> zero_at ps x ! j \<noteq> x ! j} \<subseteq> set ps"
    by (auto simp: nth_zero_at split: if_splits)
  then have "card {j. j < length x \<and> zero_at ps x ! j \<noteq> x ! j} \<le> card (set ps)"
    by (intro card_mono) simp_all
  also have "\<dots> \<le> length ps" by (rule card_length)
  finally show ?thesis .
qed

lemma length_features_to_remove_neg:
  "k < 0 \<Longrightarrow> length (features_to_remove explanation k) \<le> nat (int (length explanation) + k)"
  by (simp add: features_to_remove_def py_slice_to_def)

lemma fidelity_metric_exp_dict:
  assumes "set (features_to_remove (py_dict (explainer x 5)) k) \<subseteq> set names"
    and "length names \<le> length x"
  shows "fidelity_metric names model x (exp_dict explainer x) k
         = Inr (model x
                - model (zero_at (selected_positions names (py_dict (explainer x 5)) k) x))"
  using fidelity_metric_resolvable [OF assms] by (simp add: exp_dict_def)

section \<open>Claims\<close>

text \<open>
  C1. For \<open>num_features \<ge> 0\<close>, whenever \<open>fidelity_metric\<close> returns, its result is the
  specification's score: the model on the instance minus the model on the copy in which
  the positions of the first \<open>k\<close> identifiers, by descending absolute importance, are
  zero. It does return when every identifier of the importance mapping is a feature name
  and the instance is as long as the list of names. On \<open>x = [2, 3, 5]\<close>,
  \<open>f(x) = x[0] + 2*x[1] + 0*x[2]\<close>, importance \<open>{f0: 2, f1: 6, f2: 0}\<close> and \<open>k = 1\<close>
  the result is exactly 6.
\<close>

theorem fidelity_metric_refines_score:
  "(0 \<le> k \<and> fidelity_metric names model x importance k = Inr r
      \<longrightarrow> r = score_spec names model x importance (nat k))
   \<and> (0 \<le> k \<and> fst ` set importance \<subseteq> set names \<and> length names \<le> length x
      \<longrightarrow> fidelity_metric names model x importance k
          = Inr (score_spec names model x importance (nat k)))
   \<and> fidelity_metric [''f0'', ''f1'', ''f2''] (\<lambda>v. v ! 0 + 2 * v ! 1 + 0 * v ! 2)
        [2, 3, 5] [(''f0'', 2), (''f1'', 6), (''f2'', 0)] 1 = Inr 6"
proof (intro conjI impI)
  assume a: "0 \<le> k \<and> fidelity_metric names model x importance k = Inr r"
  then have "selected_positions names importance k
             = List.map_filter (index_of names) (spec_selected importance (nat k))"
    by (simp add: selected_positions_def spec_selected_def features_to_remove_nonneg
                  sorted_features_eq_sort_key)
  with a fidelity_metric_Inr [of names model x importance k r]
  show "r = score_spec names model x importance (nat k)"
    by (simp add: score_spec_def)
next
  assume a: "0 \<le> k \<and> fst ` set importance \<subseteq> set names \<and> length names \<le> length x"
  then have sel: "selected_positions names importance k
             = List.map_filter (index_of names) (spec_selected importance (nat k))"
    by (simp add: selected_positions_def spec_selected_def features_to_remove_nonneg
                  sorted_features_eq_sort_key)
  from a features_to_remove_subset [of importance k]
  have "set (features_to_remove importance k) \<subseteq> set names" by blast
  from fidelity_metric_resolvable [OF this, of x model] a sel
  show "fidelity_metric names model x importance k
          = Inr (score_spec names model x importance (nat k))"
    by (simp add: score_spec_def)
next
  show "fidelity_metric [''f0'', ''f1'', ''f2''] (\<lambda>v. v ! 0 + 2 * v ! 1 + 0 * v ! 2)
        [2, 3, 5] [(''f0'', 2), (''f1'', 6), (''f2'', 0)] 1 = Inr 6"
    by (simp add: fidelity_metric_def features_to_remove_def sorted_features_def
                  py_sorted_reverse_def py_slice_to_def np_zeros_like_def)
qed

theorem fidelity_metric_refines_score_witness:
  "(0::int) \<le> 1
   \<and> fst ` set [(''f0'', 2::real), (''f1'', 6), (''f2'', 0)] \<subseteq> set [''f0'', ''f1'', ''f2'']
   \<and> length [''f0'', ''f1'', ''f2''] \<le> length [2, 3, 5 :: real]
   \<and> fidelity_metric [''f0'', ''f1'', ''f2''] (\<lambda>v. v ! 0 + 2 * v ! 1 + 0 * v ! 2)
        [2, 3, 5] [(''f0'', 2), (''f1'', 6), (''f2'', 0)] 1 = Inr 6
   \<and> score_spec [''f0'', ''f1'', ''f2''] (\<lambda>v. v ! 0 + 2 * v ! 1 + 0 * v ! 2)
        [2, 3, 5] [(''f0'', 2), (''f1'', 6), (''f2'', 0)] (nat 1) = 6"
  using fidelity_metric_refines_score [of 1 "[''f0'', ''f1'', ''f2'']"
          "\<lambda>v. v ! 0 + 2 * v ! 1 + 0 * v ! 2" "[2, 3, 5]"
          "[(''f0'', 2), (''f1'', 6), (''f2'', 0)]" 6]
  by auto

text \<open>
  C5. With \<open>num_features = 0\<close> no feature is selected, the perturbed copy equals the
  instance, and the score is exactly 0, for every model, instance and importance mapping.
\<close>

theorem fidelity_metric_k_zero:
  "perturb names (np_zeros_like instance) (features_to_remove explanation 0) instance
     = Inr instance
   \<and> fidelity_metric names model instance explanation 0 = Inr 0"
  by (simp add: fidelity_metric_def features_to_remove_zero)

text \<open>
  C4 as stated fails: an importance mapping that contains the unknown identifier
  \<open>nonexistent\<close> outside the selected top \<open>k\<close> gives a normal result, since only the
  selected identifiers are looked up.
\<close>

theorem unknown_feature_counterexample:
  "fidelity_metric [''f0''] (\<lambda>v. v ! 0) [1] [(''f0'', 5), (''nonexistent'', 1)] 1 = Inr 1"
  by (simp add: fidelity_metric_def features_to_remove_def sorted_features_def
                py_sorted_reverse_def py_slice_to_def np_zeros_like_def)

text \<open>
  C4, amended. \<open>fidelity_metric\<close> fails whenever one of the selected identifiers (the
  first \<open>num_features\<close> by descending absolute importance) is not a feature name; the
  exception is the ValueError of \<^verbatim>\<open>list.index\<close> when the instance is as long
  as the list of names. When every selected identifier is a feature name it returns,
  whatever the other identifiers are. An importance mapping that holds only
  \<open>nonexistent\<close>, with \<open>k = 1\<close>, raises ValueError.
\<close>

theorem selected_unknown_feature_fails:
  "(f \<in> set (features_to_remove explanation k) \<and> f \<notin> set names
      \<longrightarrow> (\<exists>e. fidelity_metric names model x explanation k = Inl e))
   \<and> (f \<in> set (features_to_remove explanation k) \<and> f \<notin> set names
        \<and> length names \<le> length x
      \<longrightarrow> fidelity_metric names model x explanation k = Inl ValueError)
   \<and> (set (features_to_remove explanation k) \<subseteq> set names \<and> length names \<le> length x
      \<longrightarrow> (\<exists>r. fidelity_metric names model x explanation k = Inr r))
   \<and> fidelity_metric [''f0''] (\<lambda>v. v ! 0) [1] [(''nonexistent'', 1)] 1 = Inl ValueError"
proof (intro conjI impI)
  assume "f \<in> set (features_to_remove explanation k) \<and> f \<notin> set names"
  then show "\<exists>e. fidelity_metric names model x explanation k = Inl e"
    by (blast intro: fidelity_metric_unknown_fails)
next
  assume "f \<in> set (features_to_remove explanation k) \<and> f \<notin> set names
          \<and> length names \<le> length x"
  then show "fidelity_metric names model x explanation k = Inl ValueError"
    by (blast intro: fidelity_metric_unknown_ValueError)
next
  assume "set (features_to_remove explanation k) \<subseteq> set names \<and> length names \<le> length x"
  then show "\<exists>r. fidelity_metric names model x explanation k = Inr r"
    by (simp add: fidelity_metric_resolvable)
next
  show "fidelity_metric [''f0''] (\<lambda>v. v ! 0) [1] [(''nonexistent'', 1)] 1 = Inl ValueError"
    by (simp add: fidelity_metric_def features_to_remove_def sorted_features_def
                  py_sorted_reverse_def py_slice_to_def np_zeros_like_def)
qed

theorem selected_unknown_feature_fails_witness:
  "''nonexistent'' \<in> set (features_to_remove [(''f0'', 5), (''nonexistent'', 7)] 1)
   \<and> ''nonexistent'' \<notin> set [''f0'']
   \<and> length [''f0''] \<le> length [1::real]
   \<and> fidelity_metric [''f0''] (\<lambda>v. v ! 0) [1] [(''f0'', 5), (''nonexistent'', 7)] 1
       = Inl ValueError
   \<and> set (features_to_remove [(''f0'', 5), (''nonexistent'', 1)] 1) \<subseteq> set [''f0'']
   \<and> (\<exists>r. fidelity_metric [''f0''] (\<lambda>v. v ! 0) [1] [(''f0'', 5), (''nonexistent'', 1)] 1
          = Inr r)"
proof -
  have sel: "features_to_remove [(''f0'', 5), (''nonexistent'', 7)] 1 = [''nonexistent'']"
    by (simp add: features_to_remove_def sorted_features_def py_sorted_reverse_def
                  py_slice_to_def)
  have sel': "features_to_remove [(''f0'', 5), (''nonexistent'', 1)] 1 = [''f0'']"
    by (simp add: features_to_remove_def sorted_features_def py_sorted_reverse_def
                  py_slice_to_def)
  from sel selected_unknown_feature_fails [of "''nonexistent''"
         "[(''f0'', 5), (''nonexistent'', 7)]" 1 "[''f0'']" "\<lambda>v. v ! 0" "[1]"]
  have a: "fidelity_metric [''f0''] (\<lambda>v. v ! 0) [1] [(''f0'', 5), (''nonexistent'', 7)] 1
           = Inl ValueError"
    by simp
  from sel' selected_unknown_feature_fails [of "''nonexistent''"
         "[(''f0'', 5), (''nonexistent'', 1)]" 1 "[''f0'']" "\<lambda>v. v ! 0" "[1]"]
  have b: "\<exists>r. fidelity_metric [''f0''] (\<lambda>v. v ! 0) [1] [(''f0'', 5), (''nonexistent'', 1)] 1
          = Inr r"
    by simp
  from a b sel sel' show ?thesis by simp
qed

text \<open>
  C8 as stated fails: with \<open>num_features = -1\<close> the call returns a score instead of
  failing.
\<close>

theorem negative_k_counterexample:
  "fidelity_metric [''f0'', ''f1''] (\<lambda>v. v ! 0 + v ! 1) [1, 2] [(''f0'', 3), (''f1'', 1)] (- 1)
     = Inr 1"
  by (simp add: fidelity_metric_def features_to_remove_def sorted_features_def
                py_sorted_reverse_def py_slice_to_def np_zeros_like_def)

text \<open>
  C8, amended. A negative \<open>num_features\<close> is not rejected: the slice then drops the
  last \<open>-num_features\<close> entries of the sorted importance list, and the call returns
  when the identifiers resolve. When \<open>num_features\<close> is at least the number of entries
  of the importance mapping, every entry is selected and the result is that of
  \<open>num_features\<close> equal to the number of entries.
\<close>

theorem num_features_slice:
  "(k < 0 \<longrightarrow> features_to_remove explanation k
        = take (length explanation - nat (- k)) (map fst (sorted_features explanation)))
   \<and> (k < 0 \<and> fst ` set explanation \<subseteq> set names \<and> length names \<le> length x
        \<longrightarrow> (\<exists>r. fidelity_metric names model x explanation k = Inr r))
   \<and> (int (length explanation) \<le> k
        \<longrightarrow> features_to_remove explanation k = map fst (sorted_features explanation)
          \<and> fidelity_metric names model x explanation k
            = fidelity_metric names model x explanation (int (length explanation)))"
proof (intro conjI impI)
  assume "k < 0"
  then show "features_to_remove explanation k
        = take (length explanation - nat (- k)) (map fst (sorted_features explanation))"
    by (rule features_to_remove_negative)
next
  assume a: "k < 0 \<and> fst ` set explanation \<subseteq> set names \<and> length names \<le> length x"
  with features_to_remove_subset [of explanation k]
  have "set (features_to_remove explanation k) \<subseteq> set names" by blast
  with a show "\<exists>r. fidelity_metric names model x explanation k = Inr r"
    by (simp add: fidelity_metric_resolvable)
next
  assume "int (length explanation) \<le> k"
  then show "features_to_remove explanation k = map fst (sorted_features explanation)"
    by (rule features_to_remove_large)
next
  assume "int (length explanation) \<le> k"
  then show "fidelity_metric names model x explanation k
            = fidelity_metric names model x explanation (int (length explanation))"
    by (simp add: fidelity_metric_def features_to_remove_large)
qed

theorem num_features_slice_witness:
  "(- 1 :: int) < 0
   \<and> fst ` set [(''f0'', 3::real), (''f1'', 1)] \<subseteq> set [''f0'', ''f1'']
   \<and> length [''f0'', ''f1''] \<le> length [1, 2 :: real]
   \<and> features_to_remove [(''f0'', 3), (''f1'', 1)] (- 1) = [''f0'']
   \<and> (\<exists>r. fidelity_metric [''f0'', ''f1''] (\<lambda>v. v ! 0 + v ! 1) [1, 2]
            [(''f0'', 3), (''f1'', 1)] (- 1) = Inr r)
   \<and> int (length [(''f0'', 3::real), (''f1'', 1)]) \<le> 7
   \<and> features_to_remove [(''f0'', 3), (''f1'', 1)] 7 = [''f0'', ''f1'']
   \<and> fidelity_metric [''f0'', ''f1''] (\<lambda>v. v ! 0 + v ! 1) [1, 2] [(''f0'', 3), (''f1'', 1)] 7
       = Inr 3"
proof -
  have srt: "sorted_features [(''f0'', 3), (''f1'', 1)] = [(''f0'', 3), (''f1'', 1)]"
    by (simp add: sorted_features_def py_sorted_reverse_def)
  have two: "fidelity_metric [''f0'', ''f1''] (\<lambda>v. v ! 0 + v ! 1) [1, 2]
               [(''f0'', 3), (''f1'', 1)] 2 = Inr 3"
    by (simp add: fidelity_metric_def features_to_remove_def srt py_slice_to_def
                  np_zeros_like_def)
  from srt two
    num_features_slice [of "- 1" "[(''f0'', 3), (''f1'', 1)]" "[''f0'', ''f1'']" "[1, 2]"
      "\<lambda>v. v ! 0 + v ! 1"]
    num_features_slice [of 7 "[(''f0'', 3), (''f1'', 1)]" "[''f0'', ''f1'']" "[1, 2]"
      "\<lambda>v. v ! 0 + v ! 1"]
  show ?thesis by simp
qed

text \<open>
  C2 as stated fails: with one instance and \<open>num_samples = 2\<close> the call raises
  IndexError at \<^verbatim>\<open>X[1]\<close>, although the score of the one instance is 1.
\<close>

theorem short_sequence_counterexample:
  "compute_average_fidelity [''f0''] (\<lambda>v. v ! 0) [[1]] (\<lambda>x n. [(''f0'', 1)]) 2 1
     = Inl IndexError
   \<and> fidelity_metric [''f0''] (\<lambda>v. v ! 0) [1] (exp_dict (\<lambda>x n. [(''f0'', 1)]) [1]) 1
     = Inr 1"
  by (simp add: compute_average_fidelity_def py_range_def upt_rec fidelity_metric_def
                exp_dict_def py_dict_def features_to_remove_def sorted_features_def
                py_sorted_reverse_def py_slice_to_def np_zeros_like_def)

text \<open>
  C2, amended. For \<open>1 \<le> num_samples \<le> len(X)\<close>, when the score of each of the first
  \<open>num_samples\<close> instances is \<open>s i\<close>, the result is their arithmetic mean. When the
  sequence is shorter than \<open>num_samples\<close> the call fails instead of clamping, with
  IndexError when every instance scores. Three instances with scores 1, 2 and 3 give
  exactly 2.
\<close>

theorem compute_average_fidelity_mean:
  "(0 < n \<and> n \<le> int (length X)
      \<and> (\<forall>i < nat n. fidelity_metric names model (X ! i) (exp_dict explainer (X ! i)) k
                       = Inr (s i))
      \<longrightarrow> compute_average_fidelity names model X explainer n k
          = Inr (Num (sum_list (map s [0..<nat n]) / real (nat n))))
   \<and> (int (length X) < n
      \<longrightarrow> (\<exists>e. compute_average_fidelity names model X explainer n k = Inl e))
   \<and> (int (length X) < n
      \<and> (\<forall>i < length X. fidelity_metric names model (X ! i) (exp_dict explainer (X ! i)) k
                           = Inr (s i))
      \<longrightarrow> compute_average_fidelity names model X explainer n k = Inl IndexError)
   \<and> (length X = 3 \<and> n = 3
      \<and> fidelity_metric names model (X ! 0) (exp_dict explainer (X ! 0)) k = Inr 1
      \<and> fidelity_metric names model (X ! 1) (exp_dict explainer (X ! 1)) k = Inr 2
      \<and> fidelity_metric names model (X ! 2) (exp_dict explainer (X ! 2)) k = Inr 3
      \<longrightarrow> compute_average_fidelity names model X explainer n k = Inr (Num 2))"
proof (intro conjI impI)
  assume a: "0 < n \<and> n \<le> int (length X)
      \<and> (\<forall>i < nat n. fidelity_metric names model (X ! i) (exp_dict explainer (X ! i)) k
                       = Inr (s i))"
  then have "fidelity_loop names model X explainer k [0..<nat n] []
             = Inr ([] @ map s [0..<nat n])"
    by (intro fidelity_loop_all_ok) auto
  with a show "compute_average_fidelity names model X explainer n k
          = Inr (Num (sum_list (map s [0..<nat n]) / real (nat n)))"
    by (simp add: compute_average_fidelity_def py_range_def np_mean_def)
next
  assume "int (length X) < n"
  from fidelity_loop_beyond [OF this, of names model explainer k "[]"]
  show "\<exists>e. compute_average_fidelity names model X explainer n k = Inl e"
    by (auto simp: compute_average_fidelity_def)
next
  assume a: "int (length X) < n
      \<and> (\<forall>i < length X. fidelity_metric names model (X ! i) (exp_dict explainer (X ! i)) k
                           = Inr (s i))"
  then have "fidelity_loop names model X explainer k (py_range n) [] = Inl IndexError"
    by (intro fidelity_loop_beyond_IndexError) auto
  then show "compute_average_fidelity names model X explainer n k = Inl IndexError"
    by (simp add: compute_average_fidelity_def)
next
  assume a: "length X = 3 \<and> n = 3
      \<and> fidelity_metric names model (X ! 0) (exp_dict explainer (X ! 0)) k = Inr 1
      \<and> fidelity_metric names model (X ! 1) (exp_dict explainer (X ! 1)) k = Inr 2
      \<and> fidelity_metric names model (X ! 2) (exp_dict explainer (X ! 2)) k = Inr 3"
  then show "compute_average_fidelity names model X explainer n k = Inr (Num 2)"
    by (simp add: compute_average_fidelity_def py_range_def upt_rec np_mean_def
                  eval_nat_numeral Let_def)
qed

theorem compute_average_fidelity_mean_witness:
  "compute_average_fidelity [''f0''] (\<lambda>v. v ! 0) [[1], [2], [3]] (\<lambda>x n. [(''f0'', 1)]) 3 1
     = Inr (Num 2)
   \<and> compute_average_fidelity [''f0''] (\<lambda>v. v ! 0) [[1], [2], [3]] (\<lambda>x n. [(''f0'', 1)]) 2 1
     = Inr (Num (3 / 2))
   \<and> compute_average_fidelity [''f0''] (\<lambda>v. v ! 0) [[1], [2], [3]] (\<lambda>x n. [(''f0'', 1)]) 4 1
     = Inl IndexError"
proof -
  let ?names = "[''f0'']" and ?model = "\<lambda>v::vector. v ! 0" and ?X = "[[1], [2], [3::real]]"
  let ?explainer = "\<lambda>(x::vector) (n::nat). [(''f0'', 1::real)]"
  let ?s = "\<lambda>i::nat. real i + 1"
  have score: "fidelity_metric ?names ?model [v] (exp_dict ?explainer [v]) 1 = Inr v" for v
    by (simp add: fidelity_metric_def exp_dict_def py_dict_def features_to_remove_def
                  sorted_features_def py_sorted_reverse_def py_slice_to_def np_zeros_like_def)
  have all: "\<forall>i<3. fidelity_metric ?names ?model (?X ! i) (exp_dict ?explainer (?X ! i)) 1
                   = Inr (?s i)"
  proof (intro allI impI)
    fix i :: nat assume "i < 3"
    then have "i = 0 \<or> i = 1 \<or> i = 2" by arith
    then show "fidelity_metric ?names ?model (?X ! i) (exp_dict ?explainer (?X ! i)) 1
                 = Inr (?s i)"
      using score by auto
  qed
  have three: "compute_average_fidelity ?names ?model ?X ?explainer 3 1 = Inr (Num 2)"
    using compute_average_fidelity_mean [of 3 ?X ?names ?model ?explainer 1 ?s] score
    by simp
  have two: "compute_average_fidelity ?names ?model ?X ?explainer 2 1 = Inr (Num (3 / 2))"
    using compute_average_fidelity_mean [of 2 ?X ?names ?model ?explainer 1 ?s] all
    by (simp add: upt_rec)
  have four: "compute_average_fidelity ?names ?model ?X ?explainer 4 1 = Inl IndexError"
    using compute_average_fidelity_mean [of 4 ?X ?names ?model ?explainer 1 ?s] all
    by simp
  from three two four show ?thesis by simp
qed

text \<open>
  C9 as stated fails: with \<open>num_samples = 0\<close> the call returns numpy's nan, the mean of
  the empty list, and raises nothing.
\<close>

theorem zero_samples_counterexample:
  "compute_average_fidelity [''f0''] (\<lambda>v. v ! 0) [[1]] (\<lambda>x n. [(''f0'', 1)]) 0 1 = Inr NaN"
  by (simp add: compute_average_fidelity_def py_range_def np_mean_def)

text \<open>
  C9, amended. With \<open>num_samples \<le> 0\<close> the loop body never runs and the call returns
  nan, whatever the instance sequence. With an empty sequence and \<open>num_samples \<ge> 1\<close>
  it fails with the IndexError of \<^verbatim>\<open>X[0]\<close>.
\<close>

theorem compute_average_fidelity_empty:
  "(n \<le> 0 \<longrightarrow> compute_average_fidelity names model X explainer n k = Inr NaN)
   \<and> (0 < n \<longrightarrow> compute_average_fidelity names model [] explainer n k = Inl IndexError)"
proof (intro conjI impI)
  assume "n \<le> 0"
  then show "compute_average_fidelity names model X explainer n k = Inr NaN"
    by (simp add: compute_average_fidelity_def py_range_def np_mean_def)
next
  assume "0 < n"
  then have "py_range n = 0 # [1..<nat n]"
    by (simp add: py_range_def upt_conv_Cons)
  then show "compute_average_fidelity names model [] explainer n k = Inl IndexError"
    by (simp add: compute_average_fidelity_def)
qed

theorem compute_average_fidelity_empty_witness:
  "(0::int) \<le> 0
   \<and> compute_average_fidelity [''f0''] (\<lambda>v. v ! 0) [[1]] (\<lambda>x n. [(''f0'', 1)]) 0 1 = Inr NaN
   \<and> (0::int) < 10
   \<and> compute_average_fidelity [''f0''] (\<lambda>v. v ! 0) [] (\<lambda>x n. [(''f0'', 1)]) 10 1
       = Inl IndexError"
  using compute_average_fidelity_empty [of 0 "[''f0'']" "\<lambda>v. v ! 0" "[[1]]"
          "\<lambda>x n. [(''f0'', 1)]" 1]
        compute_average_fidelity_empty [of 10 "[''f0'']" "\<lambda>v. v ! 0" "[[1]]"
          "\<lambda>x n. [(''f0'', 1)]" 1]
  by simp

text \<open>
  C10 as stated fails for a negative \<open>num_features\<close>: with five entries returned by the
  explainer and \<open>num_features = -1\<close>, four features are perturbed, more than
  \<open>min(num_features, 5) = -1\<close>.
\<close>

theorem negative_num_features_counterexample:
  "length (selected_positions [''a'', ''b'', ''c'', ''d'', ''e'']
      (py_dict ((\<lambda>x n. take n [(''a'', 5), (''b'', 4), (''c'', 3), (''d'', 2), (''e'', 1)])
         [1, 1, 1, 1, 1] 5)) (- 1)) = 4
   \<and> compute_average_fidelity [''a'', ''b'', ''c'', ''d'', ''e''] sum_list [[1, 1, 1, 1, 1]]
       (\<lambda>x n. take n [(''a'', 5), (''b'', 4), (''c'', 3), (''d'', 2), (''e'', 1)]) 1 (- 1)
     = Inr (Num 4)
   \<and> \<not> (4 \<le> min (- 1) (5::int))"
  by (simp add: compute_average_fidelity_def py_range_def fidelity_metric_def exp_dict_def
                py_dict_def selected_positions_def features_to_remove_def sorted_features_def
                py_sorted_reverse_def py_slice_to_def np_zeros_like_def np_mean_def
                eval_nat_numeral)

text \<open>
  C10, amended. \<open>compute_average_fidelity\<close> asks the explainer for 5 features whatever
  \<open>num_features\<close> is: its result is that of the explainer which answers every request
  as the given one answers a request for 5, and, when the selected identifiers resolve,
  it is the mean over the first \<open>num_samples\<close> instances of the model on the instance
  minus the model on the instance zeroed at the positions selected from the answer to
  the request for 5. When that answer has at most 5 entries, the importance mapping has
  at most 5 entries and at most 5 positions are selected and changed, for every
  \<open>num_features\<close>; at most \<open>min(num_features, 5)\<close> for \<open>num_features \<ge> 0\<close>; and at most
  \<open>5 + num_features\<close> (none below \<open>-5\<close>) for \<open>num_features < 0\<close>.
\<close>

theorem five_features_requested:
  "compute_average_fidelity names model X explainer n k
     = compute_average_fidelity names model X (\<lambda>x m. explainer x 5) n k
   \<and> (0 < n \<and> n \<le> int (length X)
        \<and> (\<forall>i < nat n. set (features_to_remove (py_dict (explainer (X ! i) 5)) k) \<subseteq> set names
                         \<and> length names \<le> length (X ! i))
      \<longrightarrow> compute_average_fidelity names model X explainer n k
          = Inr (Num (sum_list (map (\<lambda>i. model (X ! i)
                   - model (zero_at (selected_positions names
                               (py_dict (explainer (X ! i) 5)) k) (X ! i)))
                 [0..<nat n]) / real (nat n))))
   \<and> (length (explainer (X ! i) 5) \<le> 5
      \<longrightarrow> length (py_dict (explainer (X ! i) 5)) \<le> 5
        \<and> length (selected_positions names (py_dict (explainer (X ! i) 5)) k) \<le> 5
        \<and> card {j. j < length (X ! i)
                 \<and> zero_at (selected_positions names (py_dict (explainer (X ! i) 5)) k)
                       (X ! i) ! j \<noteq> X ! i ! j} \<le> 5)
   \<and> (length (explainer (X ! i) 5) \<le> 5 \<and> 0 \<le> k
      \<longrightarrow> length (selected_positions names (py_dict (explainer (X ! i) 5)) k) \<le> nat (min k 5)
        \<and> card {j. j < length (X ! i)
                 \<and> zero_at (selected_positions names (py_dict (explainer (X ! i) 5)) k)
                       (X ! i) ! j \<noteq> X ! i ! j} \<le> nat (min k 5))
   \<and> (length (explainer (X ! i) 5) \<le> 5 \<and> k < 0
      \<longrightarrow> length (selected_positions names (py_dict (explainer (X ! i) 5)) k) \<le> nat (5 + k)
        \<and> card {j. j < length (X ! i)
                 \<and> zero_at (selected_positions names (py_dict (explainer (X ! i) 5)) k)
                       (X ! i) ! j \<noteq> X ! i ! j} \<le> nat (5 + k))"
proof (intro conjI impI)
  let ?d = "py_dict (explainer (X ! i) 5)"
  let ?ps = "selected_positions names ?d k"
  let ?changed = "{j. j < length (X ! i) \<and> zero_at ?ps (X ! i) ! j \<noteq> X ! i ! j}"
  have ch: "card ?changed \<le> length ?ps" by (rule changed_positions_le)
  have ps: "length ?ps \<le> length (features_to_remove ?d k)" by (rule length_selected_positions)
  show "compute_average_fidelity names model X explainer n k
     = compute_average_fidelity names model X (\<lambda>x m. explainer x 5) n k"
    using fidelity_loop_explainer_5 [of names model X explainer k "py_range n" "[]"]
    by (simp add: compute_average_fidelity_def)
  {
    assume a: "0 < n \<and> n \<le> int (length X)
        \<and> (\<forall>i < nat n. set (features_to_remove (py_dict (explainer (X ! i) 5)) k) \<subseteq> set names
                         \<and> length names \<le> length (X ! i))"
    let ?s = "\<lambda>i. model (X ! i)
                   - model (zero_at (selected_positions names
                               (py_dict (explainer (X ! i) 5)) k) (X ! i))"
    from a have "fidelity_loop names model X explainer k [0..<nat n] []
                 = Inr ([] @ map ?s [0..<nat n])"
      by (intro fidelity_loop_all_ok) (auto simp: fidelity_metric_exp_dict)
    with a show "compute_average_fidelity names model X explainer n k
          = Inr (Num (sum_list (map ?s [0..<nat n]) / real (nat n)))"
      by (simp add: compute_average_fidelity_def py_range_def np_mean_def)
  }
  {
    assume a: "length (explainer (X ! i) 5) \<le> 5"
    with length_py_dict [of "explainer (X ! i) 5"] show d: "length ?d \<le> 5" by simp
    with length_features_to_remove [of ?d k] ps show p: "length ?ps \<le> 5" by simp
    with ch show "card ?changed \<le> 5" by simp
  }
  {
    assume a: "length (explainer (X ! i) 5) \<le> 5 \<and> 0 \<le> k"
    with length_py_dict [of "explainer (X ! i) 5"] have d: "length ?d \<le> 5" by simp
    with a length_features_to_remove [of ?d k] length_features_to_remove_nonneg [of k ?d] ps
    show p: "length ?ps \<le> nat (min k 5)" by (simp add: min_def)
    with ch show "card ?changed \<le> nat (min k 5)" by simp
  }
  {
    assume a: "length (explainer (X ! i) 5) \<le> 5 \<and> k < 0"
    with length_py_dict [of "explainer (X ! i) 5"] have d: "length ?d \<le> 5" by simp
    with a length_features_to_remove_neg [of k ?d] ps
    show p: "length ?ps \<le> nat (5 + k)" by simp
    with ch show "card ?changed \<le> nat (5 + k)" by simp
  }
qed

theorem five_features_requested_witness:
  "compute_average_fidelity [''a'', ''b'', ''c'', ''d'', ''e'', ''f''] sum_list
       [[1, 1, 1, 1, 1, 1]]
       (\<lambda>x n. take n [(''a'', 6), (''b'', 5), (''c'', 4), (''d'', 3), (''e'', 2), (''f'', 1)])
       1 9 = Inr (Num 5)
   \<and> compute_average_fidelity [''a'', ''b'', ''c'', ''d'', ''e'', ''f''] sum_list
       [[1, 1, 1, 1, 1, 1]]
       (\<lambda>x m. (\<lambda>x n. take n [(''a'', 6), (''b'', 5), (''c'', 4), (''d'', 3), (''e'', 2),
           (''f'', 1)]) x 5)
       1 9 = Inr (Num 5)
   \<and> py_dict ((\<lambda>x n. take n [(''a'', 6 :: real), (''b'', 5), (''c'', 4), (''d'', 3), (''e'', 2),
          (''f'', 1)]) [1, 1, 1, 1, 1, 1 :: real] 5)
       = [(''a'', 6), (''b'', 5), (''c'', 4), (''d'', 3), (''e'', 2)]
   \<and> selected_positions [''a'', ''b'', ''c'', ''d'', ''e'', ''f'']
        [(''a'', 6), (''b'', 5), (''c'', 4), (''d'', 3), (''e'', 2)] 9 = [0, 1, 2, 3, 4]
   \<and> card {j. j < length [1, 1, 1, 1, 1, 1 :: real]
             \<and> zero_at [0, 1, 2, 3, 4] [1, 1, 1, 1, 1, 1] ! j \<noteq> [1, 1, 1, 1, 1, 1 :: real] ! j}
       \<le> nat (min 9 5)
   \<and> selected_positions [''a'', ''b'', ''c'', ''d'', ''e'', ''f'']
        [(''a'', 6), (''b'', 5), (''c'', 4), (''d'', 3), (''e'', 2)] (- 1) = [0, 1, 2, 3]
   \<and> card {j. j < length [1, 1, 1, 1, 1, 1 :: real]
             \<and> zero_at [0, 1, 2, 3] [1, 1, 1, 1, 1, 1] ! j \<noteq> [1, 1, 1, 1, 1, 1 :: real] ! j}
       \<le> nat (5 + (- 1))"
proof -
  let ?names = "[''a'', ''b'', ''c'', ''d'', ''e'', ''f'']"
  let ?x = "[1, 1, 1, 1, 1, 1 :: real]"
  let ?E = "\<lambda>(x::vector) n. take n [(''a'', 6 :: real), (''b'', 5), (''c'', 4), (''d'', 3),
               (''e'', 2), (''f'', 1)]"
  let ?d = "[(''a'', 6 :: real), (''b'', 5), (''c'', 4), (''d'', 3), (''e'', 2)]"
  have d: "py_dict (?E ?x 5) = ?d"
    by (simp add: py_dict_def eval_nat_numeral)
  have srt: "sorted_features ?d = ?d"
    by (simp add: sorted_features_def py_sorted_reverse_def)
  have f9: "features_to_remove ?d 9 = [''a'', ''b'', ''c'', ''d'', ''e'']"
    by (simp add: features_to_remove_def srt py_slice_to_def)
  have fm: "features_to_remove ?d (- 1) = [''a'', ''b'', ''c'', ''d'']"
    by (simp add: features_to_remove_def srt py_slice_to_def)
  have p9: "selected_positions ?names ?d 9 = [0, 1, 2, 3, 4]"
    by (simp add: selected_positions_def f9)
  have pm: "selected_positions ?names ?d (- 1) = [0, 1, 2, 3]"
    by (simp add: selected_positions_def fm)
  have z: "zero_at [0, 1, 2, 3, 4] ?x = [0, 0, 0, 0, 0, 1]"
    by (simp add: zero_at_def upt_rec)
  have hyp: "\<forall>i < nat 1. set (features_to_remove (py_dict (?E ([?x] ! i) 5)) 9) \<subseteq> set ?names
                         \<and> length ?names \<le> length ([?x] ! i)"
    using d f9 by simp
  have len: "length (?E ([?x] ! 0) 5) \<le> 5" by simp
  note t9 = five_features_requested [of ?names sum_list "[?x]" ?E 1 9 0]
  note tm = five_features_requested [of ?names sum_list "[?x]" ?E 1 "- 1" 0]
  from t9 [THEN conjunct2, THEN conjunct1] hyp have run: "compute_average_fidelity ?names sum_list [?x] ?E 1 9 = Inr (Num 5)"
    using d p9 z by simp
  from t9 [THEN conjunct2, THEN conjunct2] len have c9: "card {j. j < length ?x \<and> zero_at [0, 1, 2, 3, 4] ?x ! j \<noteq> ?x ! j}
                        \<le> nat (min 9 5)"
    using d p9 by simp
  from tm [THEN conjunct2, THEN conjunct2] len have cm: "card {j. j < length ?x \<and> zero_at [0, 1, 2, 3] ?x ! j \<noteq> ?x ! j}
                        \<le> nat (5 + (- 1))"
    using d pm by simp
  from t9 [THEN conjunct1] run
  have frozen: "compute_average_fidelity ?names sum_list [?x] (\<lambda>x m. ?E x 5) 1 9 = Inr (Num 5)"
    by simp
  from run frozen d p9 pm c9 cm show ?thesis by simp
qed

text \<open>
  C3. Run on a store, \<open>fidelity_metric\<close> leaves the caller's array, and every array that
  existed before the call, as it was, whether it returns or raises: the loop writes only
  into the copy, a new array. The copy has the length of the instance and agrees with it
  at every position that is not the position of a selected identifier; for
  \<open>num_features \<ge> 0\<close> there are at most \<open>num_features\<close> such positions.
\<close>

theorem perturbed_copy_frame:
  assumes "a < length h"
    and "fidelity_metric_store names model a explanation k h = (res, h')"
  shows "h' ! a = h ! a
   \<and> take (length h) h' = h
   \<and> fst (store_copy a h) \<noteq> a
   \<and> length (h' ! fst (store_copy a h)) = length (h ! a)
   \<and> (\<forall>i < length (h ! a). i \<notin> set (selected_positions names explanation k)
         \<longrightarrow> h' ! fst (store_copy a h) ! i = h ! a ! i)
   \<and> (0 \<le> k \<longrightarrow> length (selected_positions names explanation k) \<le> nat k)"
proof (intro conjI allI impI)
  note fr = fidelity_metric_store_frame [OF assms]
  from fr(2) [OF assms(1)] show "h' ! a = h ! a" .
  show "take (length h) h' = h"
    by (rule nth_equalityI) (simp_all add: fr(1) fr(2))
  from assms(1) show "fst (store_copy a h) \<noteq> a"
    by (simp add: store_copy_def)
  from fr(3) show "length (h' ! fst (store_copy a h)) = length (h ! a)"
    by (simp add: store_copy_def)
  show "h' ! fst (store_copy a h) ! i = h ! a ! i"
    if "i \<notin> set (selected_positions names explanation k)" for i
    using fr(4) [OF that] by (simp add: store_copy_def)
  show "length (selected_positions names explanation k) \<le> nat k" if "0 \<le> k"
    using length_selected_positions [of names explanation k]
      length_features_to_remove_nonneg [OF that, of explanation]
    by simp
qed

theorem perturbed_copy_frame_witness:
  "(0::nat) < length [[2, 3, 5 :: real]]
   \<and> fidelity_metric_store [''f0'', ''f1'', ''f2''] (\<lambda>v. v ! 0 + 2 * v ! 1 + 0 * v ! 2) 0
        [(''f0'', 2), (''f1'', 6), (''f2'', 0)] 1 [[2, 3, 5]]
      = (Inr 6, [[2, 3, 5], [2, 0, 5], [0, 0, 0]])
   \<and> selected_positions [''f0'', ''f1'', ''f2''] [(''f0'', 2), (''f1'', 6), (''f2'', 0)] 1 = [1]
   \<and> [[2, 3, 5], [2, 0, 5], [0, 0, 0 :: real]] ! 0 = [[2, 3, 5]] ! 0
   \<and> take (length [[2, 3, 5 :: real]]) [[2, 3, 5], [2, 0, 5], [0, 0, 0]] = [[2, 3, 5]]
   \<and> [[2, 3, 5], [2, 0, 5], [0, 0, 0 :: real]] ! fst (store_copy 0 [[2, 3, 5]]) ! 2
       = [[2, 3, 5]] ! 0 ! 2"
proof -
  have run: "fidelity_metric_store [''f0'', ''f1'', ''f2''] (\<lambda>v. v ! 0 + 2 * v ! 1 + 0 * v ! 2) 0
        [(''f0'', 2), (''f1'', 6), (''f2'', 0)] 1 [[2, 3, 5]]
      = (Inr 6, [[2, 3, 5], [2, 0, 5], [0, 0, 0]])"
    by (simp add: fidelity_metric_store_def store_copy_def store_zeros_like_def
                  features_to_remove_def sorted_features_def py_sorted_reverse_def
                  py_slice_to_def np_zeros_like_def)
  have sel: "selected_positions [''f0'', ''f1'', ''f2''] [(''f0'', 2), (''f1'', 6), (''f2'', 0)] 1
             = [1]"
    by (simp add: selected_positions_def features_to_remove_def sorted_features_def
                  py_sorted_reverse_def py_slice_to_def)
  have len: "(0::nat) < length [[2, 3, 5 :: real]]" by simp
  from perturbed_copy_frame [OF len run] sel run show ?thesis
    by (simp add: store_copy_def)
qed

text \<open>
  C7. The selection made by \<open>fidelity_metric\<close> is a function of the importance
  mapping's iteration order and of \<open>num_features\<close> alone: it is the slice of the
  entries sorted stably by descending absolute importance, of length
  \<open>min(num_features, n)\<close> for \<open>num_features \<ge> 0\<close>. Whenever an entry is selected, every
  entry of larger absolute importance is selected, and so is every entry of equal
  absolute importance inserted before it: ties go to the earlier insertion. The sorted
  list is a rearrangement of the entries, descending, with equal keys in insertion order.
  The result of a call depends only on the value of the instance, not on the rest of
  the store, and a second call on the store left by the first returns the same result.
\<close>

theorem score_deterministic_stable:
  "features_to_remove explanation k
     = map fst (py_slice_to k (sort_key (\<lambda>e. - \<bar>snd e\<bar>) explanation))
   \<and> (0 \<le> k
        \<longrightarrow> length (features_to_remove explanation k) = min (nat k) (length explanation))
   \<and> (distinct (map fst explanation) \<and> i < length explanation \<and> j < length explanation
        \<and> fst (explanation ! j) \<in> set (features_to_remove explanation k)
        \<and> (\<bar>snd (explanation ! j)\<bar> < \<bar>snd (explanation ! i)\<bar>
             \<or> (\<bar>snd (explanation ! i)\<bar> = \<bar>snd (explanation ! j)\<bar> \<and> i < j))
        \<longrightarrow> fst (explanation ! i) \<in> set (features_to_remove explanation k))
   \<and> sorted (rev (map (\<lambda>e. \<bar>snd e\<bar>) (sorted_features explanation)))
   \<and> mset (sorted_features explanation) = mset explanation
   \<and> filter (\<lambda>e. \<bar>snd e\<bar> = v) (sorted_features explanation)
       = filter (\<lambda>e. \<bar>snd e\<bar> = v) explanation
   \<and> (a < length h \<and> a' < length h' \<and> h ! a = h' ! a'
        \<longrightarrow> fst (fidelity_metric_store names model a explanation k h)
            = fst (fidelity_metric_store names model a' explanation k h'))
   \<and> (a < length h
        \<longrightarrow> fst (fidelity_metric_store names model a explanation k
                   (snd (fidelity_metric_store names model a explanation k h)))
            = fst (fidelity_metric_store names model a explanation k h))"
proof (intro conjI impI)
  show "features_to_remove explanation k
     = map fst (py_slice_to k (sort_key (\<lambda>e. - \<bar>snd e\<bar>) explanation))"
    by (rule features_to_remove_spec_sort)
next
  assume "0 \<le> k"
  then show "length (features_to_remove explanation k) = min (nat k) (length explanation)"
    by (rule length_features_to_remove_exact)
next
  assume "distinct (map fst explanation) \<and> i < length explanation \<and> j < length explanation
        \<and> fst (explanation ! j) \<in> set (features_to_remove explanation k)
        \<and> (\<bar>snd (explanation ! j)\<bar> < \<bar>snd (explanation ! i)\<bar>
             \<or> (\<bar>snd (explanation ! i)\<bar> = \<bar>snd (explanation ! j)\<bar> \<and> i < j))"
  then show "fst (explanation ! i) \<in> set (features_to_remove explanation k)"
    using selection_closed [of explanation i j k] by blast
next
  show "sorted (rev (map (\<lambda>e. \<bar>snd e\<bar>) (sorted_features explanation)))"
    by (simp add: sorted_features_def py_sorted_reverse_descending)
  show "mset (sorted_features explanation) = mset explanation"
    by (simp add: sorted_features_def py_sorted_reverse_mset)
  show "filter (\<lambda>e. \<bar>snd e\<bar> = v) (sorted_features explanation)
       = filter (\<lambda>e. \<bar>snd e\<bar> = v) explanation"
    unfolding sorted_features_def by (rule py_sorted_reverse_stable)
next
  assume "a < length h \<and> a' < length h' \<and> h ! a = h' ! a'"
  then show "fst (fidelity_metric_store names model a explanation k h)
            = fst (fidelity_metric_store names model a' explanation k h')"
    by (simp add: fidelity_metric_store_result)
next
  assume a: "a < length h"
  obtain res h1 where eq: "fidelity_metric_store names model a explanation k h = (res, h1)"
    by (cases "fidelity_metric_store names model a explanation k h")
  from fidelity_metric_store_frame(1,2) [OF a eq] a
  have a1: "a < length h1" and same: "h1 ! a = h ! a" by simp_all
  from fidelity_metric_store_result [OF a, of names model explanation k]
    fidelity_metric_store_result [OF a1, of names model explanation k] same eq
  show "fst (fidelity_metric_store names model a explanation k
                   (snd (fidelity_metric_store names model a explanation k h)))
            = fst (fidelity_metric_store names model a explanation k h)"
    by simp
qed

theorem score_deterministic_stable_witness:
  "features_to_remove [(''f0'', 6), (''f1'', - 6), (''f2'', 0)] 1 = [''f0'']
   \<and> features_to_remove [(''f0'', 6), (''f1'', - 6), (''f2'', 0)] 2 = [''f0'', ''f1'']
   \<and> distinct (map fst [(''f0'', 6 :: real), (''f1'', - 6), (''f2'', 0)])
   \<and> fst ([(''f0'', 6 :: real), (''f1'', - 6), (''f2'', 0)] ! 1)
       \<in> set (features_to_remove [(''f0'', 6), (''f1'', - 6), (''f2'', 0)] 2)
   \<and> \<bar>snd ([(''f0'', 6 :: real), (''f1'', - 6), (''f2'', 0)] ! 0)\<bar>
       = \<bar>snd ([(''f0'', 6 :: real), (''f1'', - 6), (''f2'', 0)] ! 1)\<bar>
   \<and> fst ([(''f0'', 6 :: real), (''f1'', - 6), (''f2'', 0)] ! 0)
       \<in> set (features_to_remove [(''f0'', 6), (''f1'', - 6), (''f2'', 0)] 2)
   \<and> (0::nat) < length [[2, 3, 5 :: real]]
   \<and> (1::nat) < length [[0], [2, 3, 5 :: real]]
   \<and> [[2, 3, 5 :: real]] ! 0 = [[0], [2, 3, 5]] ! 1
   \<and> fst (fidelity_metric_store [''f0'', ''f1'', ''f2''] (\<lambda>v. v ! 0 + 2 * v ! 1) 0
        [(''f0'', 6), (''f1'', - 6), (''f2'', 0)] 1 [[2, 3, 5]]) = Inr 2
   \<and> fst (fidelity_metric_store [''f0'', ''f1'', ''f2''] (\<lambda>v. v ! 0 + 2 * v ! 1) 1
        [(''f0'', 6), (''f1'', - 6), (''f2'', 0)] 1 [[0], [2, 3, 5]]) = Inr 2
   \<and> fst (fidelity_metric_store [''f0'', ''f1'', ''f2''] (\<lambda>v. v ! 0 + 2 * v ! 1) 0
        [(''f0'', 6), (''f1'', - 6), (''f2'', 0)] 1
        (snd (fidelity_metric_store [''f0'', ''f1'', ''f2''] (\<lambda>v. v ! 0 + 2 * v ! 1) 0
           [(''f0'', 6), (''f1'', - 6), (''f2'', 0)] 1 [[2, 3, 5]]))) = Inr 2
   \<and> sorted_features [(''f0'', 6), (''f1'', - 6), (''f2'', 0)]
       = [(''f0'', 6), (''f1'', - 6), (''f2'', 0)]"
proof -
  let ?names = "[''f0'', ''f1'', ''f2'']" and ?model = "\<lambda>v::vector. v ! 0 + 2 * v ! 1"
  let ?e = "[(''f0'', 6), (''f1'', - 6), (''f2'', 0::real)]"
  have srt: "sorted_features ?e = ?e"
    by (simp add: sorted_features_def py_sorted_reverse_def)
  have one: "features_to_remove ?e 1 = [''f0'']"
    by (simp add: features_to_remove_def srt py_slice_to_def)
  have two: "features_to_remove ?e 2 = [''f0'', ''f1'']"
    by (simp add: features_to_remove_def srt py_slice_to_def)
  have run: "fst (fidelity_metric_store ?names ?model 0 ?e 1 [[2, 3, 5]]) = Inr 2"
    by (simp add: fidelity_metric_store_def store_copy_def store_zeros_like_def
                  one np_zeros_like_def)
  have stores: "fst (fidelity_metric_store ?names ?model 1 ?e 1 [[0], [2, 3, 5]]) = Inr 2
     \<and> fst (fidelity_metric_store ?names ?model 0 ?e 1
          (snd (fidelity_metric_store ?names ?model 0 ?e 1 [[2, 3, 5]]))) = Inr 2"
    using run
      score_deterministic_stable [of ?e 1 0 0 6 0 "[[2, 3, 5]]" 1 "[[0], [2, 3, 5]]"
        ?names ?model]
    by simp
  have closed: "fst (?e ! 0) \<in> set (features_to_remove ?e 2)"
    using two
      score_deterministic_stable [of ?e 2 0 1 6 0 "[[2, 3, 5]]" 1 "[[0], [2, 3, 5]]"
        ?names ?model]
    by simp
  from srt one two run stores closed show ?thesis by simp
qed

text \<open>
  C6. For the linear model \<open>f(x) = w \<cdot> x\<close>, distinct feature names, one per position,
  and an importance mapping whose entries are the names paired with \<open>w * x\<close> elementwise
  (in any insertion order), the score with \<open>num_features = len(x)\<close> is exactly \<open>f(x)\<close>,
  which is \<open>f(x) - f(0)\<close>.
\<close>

theorem linear_model_full_removal:
  assumes "distinct names" "length names = length x" "length w = length x"
    and "distinct (map fst importance)"
    and "set importance = set (zip names (map2 (*) w x))"
  shows "fidelity_metric names (linear_model w) x importance (int (length x))
           = Inr (linear_model w x)
   \<and> linear_model w x = linear_model w x - linear_model w (np_zeros_like x)"
proof -
  let ?vals = "map2 (*) w x"
  from assms(2,3) have lv: "length ?vals = length names" by simp
  then have keys: "fst ` set importance = set names"
    unfolding assms(5) by (metis map_fst_zip set_map)
  from assms(4) have "distinct importance" by (rule distinct_map [THEN iffD1, THEN conjunct1])
  then have "length importance = card (set importance)"
    by (simp add: distinct_card)
  also have "\<dots> \<le> length (zip names ?vals)"
    unfolding assms(5) by (rule card_length)
  also from lv have "\<dots> = length x" using assms(2) by simp
  finally have large: "int (length importance) \<le> int (length x)" by simp
  have sel: "features_to_remove importance (int (length x)) = map fst (sorted_features importance)"
    using large by (rule features_to_remove_large)
  have "set (sorted_features importance) = set importance"
    by (simp add: sorted_features_def py_sorted_reverse_def)
  with sel keys have sel_set: "set (features_to_remove importance (int (length x))) = set names"
    by simp
  have cover: "i \<in> set (selected_positions names importance (int (length x)))"
    if "i < length x" for i
    unfolding selected_positions_def
    using positions_cover [OF assms(1), of "features_to_remove importance (int (length x))" i]
      sel_set that assms(2) by simp
  have zeros: "zero_at (selected_positions names importance (int (length x))) x
               = replicate (length x) 0"
    by (rule zero_at_all) (rule cover)
  from sel_set assms(2)
  have "fidelity_metric names (linear_model w) x importance (int (length x))
        = Inr (linear_model w x
               - linear_model w (zero_at (selected_positions names importance (int (length x))) x))"
    by (intro fidelity_metric_resolvable) simp_all
  then show ?thesis
    by (simp add: zeros linear_model_zeros np_zeros_like_def)
qed

theorem linear_model_full_removal_witness:
  "distinct [''f0'', ''f1'', ''f2'']
   \<and> length [''f0'', ''f1'', ''f2''] = length [2, 3, 5 :: real]
   \<and> length [1, 2, 0 :: real] = length [2, 3, 5 :: real]
   \<and> distinct (map fst [(''f1'', 6 :: real), (''f2'', 0), (''f0'', 2)])
   \<and> set [(''f1'', 6), (''f2'', 0), (''f0'', 2)]
       = set (zip [''f0'', ''f1'', ''f2''] (map2 (*) [1, 2, 0] [2, 3, 5 :: real]))
   \<and> fidelity_metric [''f0'', ''f1'', ''f2''] (linear_model [1, 2, 0]) [2, 3, 5]
        [(''f1'', 6), (''f2'', 0), (''f0'', 2)] (int (length [2, 3, 5 :: real])) = Inr 8
   \<and> linear_model [1, 2, 0] [2, 3, 5] = 8"
proof -
  have d: "distinct [''f0'', ''f1'', ''f2'']" by simp
  have l1: "length [''f0'', ''f1'', ''f2''] = length [2, 3, 5 :: real]" by simp
  have l2: "length [1, 2, 0 :: real] = length [2, 3, 5 :: real]" by simp
  have d2: "distinct (map fst [(''f1'', 6 :: real), (''f2'', 0), (''f0'', 2)])" by simp
  have s: "set [(''f1'', 6), (''f2'', 0), (''f0'', 2)]
       = set (zip [''f0'', ''f1'', ''f2''] (map2 (*) [1, 2, 0] [2, 3, 5 :: real]))"
    by auto
  have v: "linear_model [1, 2, 0] [2, 3, 5] = 8" by (simp add: linear_model_def)
  from linear_model_full_removal [OF d l1 l2 d2 s] v d l1 l2 d2 s show ?thesis
    by simp
qed

end
